theory Spec2Isabelle
  imports Complex_Main "HOL-Library.Multiset"
begin

section \<open>Data model of \<open>pyhopper/search.py\<close>\<close>

text \<open>
  Python exceptions are values.  A function of the source that can raise returns
  \<open>error + 'a\<close>; a method that mutates the \<open>Search\<close> object before it raises returns
  the pair of an \<open>error option\<close> and the object as the raise left it.
\<close>

datatype error =
    ValueError string
  | KeyError string
  | IndexError
  | TypeError
  | AttributeError
  | RecursionError
  | FileNotFoundError

text \<open>Leaf values of a candidate (Python scalars).\<close>

datatype pyval = VInt int | VFloat real | VStr string | VBool bool

text \<open>
  The search space and the candidates are trees of Python objects: a \<open>Parameter\<close>
  instance (named by a number, its behaviour is given by the oracles below), the constant
  \<open>None\<close>, another constant, a \<open>dict\<close> (insertion-ordered, hence an association list)
  or a \<open>list\<close>.
\<close>

datatype tree =
    Param nat
  | PyNone
  | Const pyval
  | Dict "(string \<times> tree) list"
  | Lst "tree list"

text \<open>
  \<open>node[k]\<close>, \<open>node[i]\<close> and \<open>len(node)\<close> of Python, with the exception each
  raises.  The keys of the dicts are strings; a string is indexed by position.
\<close>

fun dict_get :: "tree \<Rightarrow> string \<Rightarrow> error + tree" where
  "dict_get (Dict kvs) k = (case map_of kvs k of None \<Rightarrow> Inl (KeyError k) | Some v \<Rightarrow> Inr v)"
| "dict_get t k = Inl TypeError"

fun list_get :: "tree \<Rightarrow> nat \<Rightarrow> error + tree" where
  "list_get (Lst xs) i = (if i < length xs then Inr (xs ! i) else Inl IndexError)"
| "list_get (Const (VStr s)) i = (if i < length s then Inr (Const (VStr [s ! i])) else Inl IndexError)"
| "list_get (Dict kvs) i = Inl (KeyError [])"
| "list_get t i = Inl TypeError"


text \<open>
  The parts of a \<open>Parameter\<close> that live in \<open>parameters.py\<close> and the random number
  generator are oracles.  Every random draw is numbered; the oracle maps the number of the
  draw to its outcome, so that any sequence of outcomes is some oracle.
  \<open>recursion_limit\<close> is the interpreter's bound on the depth of the call stack.
\<close>

record oracles =
  initial_value :: "nat \<Rightarrow> tree"
  p_sample :: "nat \<Rightarrow> nat \<Rightarrow> tree"
  p_mutate :: "nat \<Rightarrow> nat \<Rightarrow> tree \<Rightarrow> real \<Rightarrow> tree"
  shuffle :: "nat \<Rightarrow> bool list \<Rightarrow> bool list"
  recursion_limit :: nat

subsection \<open>Collaborators that are not in \<open>search.py\<close>\<close>

text \<open>
  Modelled from the spec: \<open>EvaluationCache\<close> (\<open>cache.py\<close> is missing).  The cache
  holds the committed candidates with their values and the staged (in flight) candidates;
  \<open>contains\<close> tests both sets and is switched off by \<open>set_enable False\<close>, while
  staging and committing go on.  Two candidates are equal when their trees are.
\<close>

record cache =
  enabled :: bool
  committed :: "(tree \<times> real) list"
  staged :: "tree list"

definition cache_empty :: cache where
  "cache_empty = \<lparr>enabled = True, committed = [], staged = []\<rparr>"

definition cache_contains :: "cache \<Rightarrow> tree \<Rightarrow> bool" where
  "cache_contains c x \<longleftrightarrow> enabled c \<and> (x \<in> fst ` set (committed c) \<or> x \<in> set (staged c))"

definition cache_stage :: "cache \<Rightarrow> tree \<Rightarrow> cache" where
  "cache_stage c x = c\<lparr>staged := staged c @ [x]\<rparr>"

definition cache_commit :: "cache \<Rightarrow> tree \<Rightarrow> real \<Rightarrow> cache" where
  "cache_commit c x v = c\<lparr>committed := committed c @ [(x, v)], staged := removeAll x (staged c)\<rparr>"

definition cache_set_enable :: "cache \<Rightarrow> bool \<Rightarrow> cache" where
  "cache_set_enable c b = c\<lparr>enabled := b\<rparr>"

text \<open>
  Modelled from the spec: \<open>ScheduledRun\<close> (\<open>run_context.py\<close> is missing), for a
  budget of steps.  The run is over when the elapsed steps meet the configured steps; the
  seeding phase lasts for the seeding budget; the temperature is interpolated linearly
  from the start to the end value over the budget consumed and clipped to \<open>[0, 1]\<close>.
\<close>

record schedule =
  step :: nat
  max_steps :: nat
  seeding_steps :: nat
  start_temperature :: real
  end_temperature :: real

definition clip :: "real \<Rightarrow> real \<Rightarrow> real \<Rightarrow> real" where
  "clip x lo hi = min (max x lo) hi"

definition is_timeout :: "schedule \<Rightarrow> bool" where
  "is_timeout sch \<longleftrightarrow> max_steps sch \<le> step sch"

definition is_in_seeding_mode :: "schedule \<Rightarrow> bool" where
  "is_in_seeding_mode sch \<longleftrightarrow> step sch < seeding_steps sch"

definition increment_step :: "schedule \<Rightarrow> schedule" where
  "increment_step sch = sch\<lparr>step := step sch + 1\<rparr>"

definition schedule_temperature :: "schedule \<Rightarrow> real" where
  "schedule_temperature sch =
     clip (start_temperature sch
           + (end_temperature sch - start_temperature sch) * (real (step sch) / real (max_steps sch)))
          0 1"

text \<open>
  The result of one evaluation (\<open>CandidateResult\<close> of \<open>parallel.py\<close>) and the metadata
  of a candidate (\<open>ParamInfo\<close>, \<open>CandidateType\<close> of \<open>utils.py\<close>), with the fields
  \<open>search.py\<close> reads and writes.  Time stamps are left out.
\<close>

record candidate_result =
  cr_value :: real
  cr_error :: "string option"
  cr_is_nan :: bool
  cr_was_pruned :: bool
  cr_intermediate_results :: "real list"

datatype candidate_type = INIT | MANUALLY_ADDED | RANDOM_SEEDING | LOCAL_SAMPLING

record param_info =
  pi_type :: candidate_type
  pi_is_pruned :: bool
  pi_is_nan :: bool

definition ParamInfo :: "candidate_type \<Rightarrow> param_info" where
  "ParamInfo ty = \<lparr>pi_type = ty, pi_is_pruned = False, pi_is_nan = False\<rparr>"

text \<open>
  What the run does to the outside world is recorded in a log: the hooks of the observers
  (each observer is named by a number), the evaluations of the objective function, and the
  steps of the abort sequence.
\<close>

datatype hook =
    on_search_start
  | on_evaluate_start tree param_info
  | on_evaluate_end tree real param_info
  | on_evaluate_pruned tree param_info
  | on_evaluate_nan tree param_info
  | on_new_best tree real param_info
  | on_search_end

datatype event =
    Notify nat hook
  | Execute tree
  | Submit tree param_info
  | PrintError string
  | PoolShutdown
  | ChildrenSigterm

definition notify :: "nat list \<Rightarrow> hook \<Rightarrow> event list" where
  "notify callbacks h = map (\<lambda>c. Notify c h) callbacks"

text \<open>
  The run context.  A pruner is an object (named by a number) that holds what \<open>append\<close>
  has been given; the task executor, when there is one, is reduced to whether it has been
  shut down.
\<close>

record pruner_obj =
  pruner_id :: nat
  appended :: "(real list \<times> bool) list"

record run_context =
  direction :: string
  pruner :: "pruner_obj option"
  ignore_nans :: bool
  sched :: schedule
  callbacks :: "nat list"
  task_executor :: "bool option"
  terminate :: bool

text \<open>
  The \<open>Search\<close> object (lines 233 to 245), with the number of the next random draw and
  the log.  The entries of the history are written by the hooks of the history recorder,
  which are in \<open>callbacks\<close> (missing): the model records the hooks in the log, and only
  \<open>load\<close> changes the entries.
\<close>

record search =
  params :: tree
  best_solution :: tree
  free_param_count :: nat
  best_f :: "real option"
  f_cache :: cache
  run_ctx :: "run_context option"
  manually_queued_candidates :: "tree list"
  history :: "(tree \<times> real) list"
  checkpoint_path :: "string option"
  caught_exception :: bool
  rng :: nat
  log :: "event list"

section \<open>The tree traversals of \<open>Search\<close>\<close>

text \<open>
  A comprehension or loop over a list whose body can raise, and one whose body also
  changes a state that the next element sees.
\<close>

fun map_err :: "('a \<Rightarrow> error + 'b) \<Rightarrow> 'a list \<Rightarrow> error + 'b list" where
  "map_err f [] = Inr []"
| "map_err f (x # xs) =
     (case f x of
        Inl e \<Rightarrow> Inl e
      | Inr y \<Rightarrow> (case map_err f xs of Inl e \<Rightarrow> Inl e | Inr ys \<Rightarrow> Inr (y # ys)))"

fun map_state :: "('a \<Rightarrow> 's \<Rightarrow> error + ('b \<times> 's)) \<Rightarrow> 'a list \<Rightarrow> 's \<Rightarrow> error + ('b list \<times> 's)" where
  "map_state f [] st = Inr ([], st)"
| "map_state f (x # xs) st =
     (case f x st of
        Inl e \<Rightarrow> Inl e
      | Inr (y, st') \<Rightarrow>
          (case map_state f xs st' of Inl e \<Rightarrow> Inl e | Inr (ys, st'') \<Rightarrow> Inr (y # ys, st'')))"

lemma map_err_cong [fundef_cong]:
  "xs = ys \<Longrightarrow> (\<And>x. x \<in> set ys \<Longrightarrow> f x = g x) \<Longrightarrow> map_err f xs = map_err g ys"
  by (induction ys arbitrary: xs) (auto split: sum.splits)

text \<open>\<open>Search._get_initial_solution\<close> (lines 258 to 266).\<close>

fun get_initial_solution :: "oracles \<Rightarrow> tree \<Rightarrow> tree" where
  "get_initial_solution env (Param p) = initial_value env p"
| "get_initial_solution env (Dict kvs) = Dict (map (\<lambda>(k, v). (k, get_initial_solution env v)) kvs)"
| "get_initial_solution env (Lst xs) = Lst (map (get_initial_solution env) xs)"
| "get_initial_solution env t = t"

text \<open>\<open>Search._count_free_parameters_rec\<close> (lines 287 to 297).\<close>

fun count_free_parameters_rec :: "tree \<Rightarrow> nat" where
  "count_free_parameters_rec (Param p) = 1"
| "count_free_parameters_rec (Dict kvs) = sum_list (map (\<lambda>(k, v). count_free_parameters_rec v) kvs)"
| "count_free_parameters_rec (Lst xs) = sum_list (map count_free_parameters_rec xs)"
| "count_free_parameters_rec t = 0"

text \<open>
  \<open>Search._enqueue_rec\<close> (lines 310 to 339).  The \<open>ValueError\<close> carries the
  offending key, or nothing when the guess is not a dict.
\<close>

lemma size_enumerate_less:
  "(i, b) \<in> set (enumerate n bs) \<Longrightarrow> size (b::tree) < Suc (size_list size bs)"
proof -
  assume "(i, b) \<in> set (enumerate n bs)"
  then have "b \<in> set bs"
    by (auto simp: in_set_enumerate_eq)
  then have "size b \<le> size_list size bs"
    by (simp add: size_list_estimation')
  then show ?thesis by simp
qed

lemma size_dict_entry_less:
  "(k, v) \<in> set kvs \<Longrightarrow> size (v::tree) < Suc (size_list (size_prod (\<lambda>x. 0) size) kvs)"
proof -
  assume "(k, v) \<in> set kvs"
  then have "size_prod (\<lambda>x. 0) size (k, v) \<le> size_list (size_prod (\<lambda>x. 0) size) kvs"
    by (rule size_list_estimation') simp
  then show ?thesis by simp
qed


text \<open>
  \<open>Search.sample_solution\<close> (lines 385 to 395).  The default \<open>node=None\<close> stands for
  "start at the root", so a node that is the constant \<open>None\<close> starts at the root again.
  The first argument is the number of stack frames left: a call without one raises
  \<open>RecursionError\<close>.  The state is the number of the next random draw.
\<close>

fun sample_solution :: "oracles \<Rightarrow> search \<Rightarrow> nat \<Rightarrow> tree \<Rightarrow> nat \<Rightarrow> error + (tree \<times> nat)" where
  "sample_solution env s 0 node r = Inl RecursionError"
| "sample_solution env s (Suc d) node r =
     (case (if node = PyNone then params s else node) of
        Param p \<Rightarrow> Inr (p_sample env r p, Suc r)
      | Dict kvs \<Rightarrow>
          (case map_state (\<lambda>(k, v) r'.
                   (case sample_solution env s d v r' of
                      Inl e \<Rightarrow> Inl e
                    | Inr (c, r'') \<Rightarrow> Inr ((k, c), r''))) kvs r of
             Inl e \<Rightarrow> Inl e
           | Inr (cs, r') \<Rightarrow> Inr (Dict cs, r'))
      | Lst xs \<Rightarrow>
          (case map_state (\<lambda>v r'. sample_solution env s d v r') xs r of
             Inl e \<Rightarrow> Inl e
           | Inr (cs, r') \<Rightarrow> Inr (Lst cs, r'))
      | PyNone \<Rightarrow> Inr (PyNone, r)
      | Const c \<Rightarrow> Inr (Const c, r))"

text \<open>
  Python's \<open>round\<close> of a float rounds a tie to the even neighbour.
\<close>

definition py_round :: "real \<Rightarrow> int" where
  "py_round x =
     (let f = \<lfloor>x\<rfloor>; r = x - of_int f
      in if r < 1 / 2 then f else if 1 / 2 < r then f + 1 else if even f then f else f + 1)"

definition amount_to_mutate :: "real \<Rightarrow> nat \<Rightarrow> int" where
  "amount_to_mutate temperature n = max (py_round (temperature * real n)) 1"

definition fresh_bitmask :: "int \<Rightarrow> nat \<Rightarrow> bool list" where
  "fresh_bitmask amount n = map (\<lambda>i. int i < amount) [0..<n]"

text \<open>
  \<open>Search.mutate_from_best\<close> (lines 397 to 429).  The state is the bitmask (popped
  from its end), the number of the next random draw and the parameters on which
  \<open>mutate\<close> has been called so far.  At the root (\<open>node is None\<close>) the temperature is
  clipped, the bitmask is built and shuffled; the bitmask of the caller, if there is one,
  is another list and is left as it was.
\<close>

type_synonym mstate = "bool list \<times> nat \<times> nat list"

fun mutate_from_best ::
  "oracles \<Rightarrow> search \<Rightarrow> nat \<Rightarrow> real \<Rightarrow> tree \<Rightarrow> tree \<Rightarrow> mstate \<Rightarrow> error + (tree \<times> mstate)" where
  "mutate_from_best env s 0 temperature node best_node st = Inl RecursionError"
| "mutate_from_best env s (Suc d) temperature node best_node (bitmask, r, tr) =
     (let root = (node = PyNone);
          t = (if root then clip temperature 0 1 else temperature);
          node' = (if root then params s else node);
          best' = (if root then best_solution s else best_node);
          bm = (if root
                then shuffle env r
                       (fresh_bitmask (amount_to_mutate t (free_param_count s))
                          (free_param_count s))
                else bitmask);
          r1 = (if root then Suc r else r)
      in case
           (case node' of
              Param p \<Rightarrow>
                (if bm = [] then Inl IndexError
                 else if last bm
                   then Inr (p_mutate env r1 p best' t, (butlast bm, Suc r1, tr @ [p]))
                   else Inr (best', (butlast bm, r1, tr)))
            | Dict kvs \<Rightarrow>
                (case map_state (\<lambda>(k, v) st.
                         (case dict_get best' k of
                            Inl e \<Rightarrow> Inl e
                          | Inr b \<Rightarrow>
                              (case mutate_from_best env s d t v b st of
                                 Inl e \<Rightarrow> Inl e
                               | Inr (c, st') \<Rightarrow> Inr ((k, c), st')))) kvs (bm, r1, tr) of
                   Inl e \<Rightarrow> Inl e
                 | Inr (cs, st') \<Rightarrow> Inr (Dict cs, st'))
            | Lst xs \<Rightarrow>
                (case map_state (\<lambda>i st.
                         (case list_get best' i of
                            Inl e \<Rightarrow> Inl e
                          | Inr b \<Rightarrow> mutate_from_best env s d t (xs ! i) b st))
                       [0..<length xs] (bm, r1, tr) of
                   Inl e \<Rightarrow> Inl e
                 | Inr (cs, st') \<Rightarrow> Inr (Lst cs, st'))
            | PyNone \<Rightarrow> Inr (PyNone, (bm, r1, tr))
            | Const c \<Rightarrow> Inr (Const c, (bm, r1, tr)))
         of
           Inl e \<Rightarrow> Inl e
         | Inr (c, (bm', st')) \<Rightarrow> Inr (c, ((if root then bitmask else bm'), st')))"

section \<open>The operations of \<open>Search\<close>\<close>

text \<open>\<open>Search.__init__\<close> (lines 220 to 245), \<open>manual_queue_count\<close> (line 805).\<close>

definition init_search :: "oracles \<Rightarrow> tree \<Rightarrow> search" where
  "init_search env parameters =
     \<lparr>params = parameters,
      best_solution = get_initial_solution env parameters,
      free_param_count = count_free_parameters_rec parameters,
      best_f = None,
      f_cache = cache_empty,
      run_ctx = None,
      manually_queued_candidates = [],
      history = [],
      checkpoint_path = None,
      caught_exception = False,
      rng = 0,
      log = []\<rparr>"

definition manual_queue_count :: "search \<Rightarrow> nat" where
  "manual_queue_count s = length (manually_queued_candidates s)"


text \<open>
  \<open>Search._shutdown_worker_processes\<close> (lines 538 to 551): with a task executor, the
  pool is shut down and the child processes are sent SIGTERM.
\<close>

definition shutdown_worker_processes :: "search \<Rightarrow> error option \<times> search" where
  "shutdown_worker_processes s =
     (case run_ctx s of
        None \<Rightarrow> (Some AttributeError, s)
      | Some rc \<Rightarrow>
          (case task_executor rc of
             None \<Rightarrow> (None, s)
           | Some down \<Rightarrow>
               (None, s\<lparr>run_ctx := Some (rc\<lparr>task_executor := Some True\<rparr>),
                         log := log s @ [PoolShutdown, ChildrenSigterm]\<rparr>)))"

text \<open>
  The test of lines 521 to 531: no best value yet, or a strictly better one in the
  direction of the run.
\<close>

definition improves :: "string \<Rightarrow> real option \<Rightarrow> real \<Rightarrow> bool" where
  "improves dir best v =
     (case best of
        None \<Rightarrow> True
      | Some b \<Rightarrow> (dir = ''max'' \<and> b < v) \<or> (dir = ''min'' \<and> v < b))"

text \<open>\<open>Search._async_result_ready\<close> (lines 478 to 536).\<close>

definition async_result_ready ::
  "search \<Rightarrow> tree \<Rightarrow> param_info \<Rightarrow> candidate_result \<Rightarrow> error option \<times> search" where
  "async_result_ready s candidate pinfo candidate_result =
     (case cr_error candidate_result of
        Some err \<Rightarrow>
          (if \<not> caught_exception s then
             (case shutdown_worker_processes (s\<lparr>caught_exception := True\<rparr>) of
                (Some e, s1) \<Rightarrow> (Some e, s1)
              | (None, s1) \<Rightarrow>
                  (Some (ValueError ''Pyhopper - Remote process caught exception''),
                   s1\<lparr>log := log s1 @ [PrintError err]\<rparr>))
           else (None, s))
      | None \<Rightarrow>
          (case run_ctx s of
             None \<Rightarrow>
               (if cr_is_nan candidate_result then (Some AttributeError, s)
                else (Some AttributeError,
                      s\<lparr>f_cache := cache_commit (f_cache s) candidate (cr_value candidate_result)\<rparr>))
           | Some rc \<Rightarrow>
               (if cr_is_nan candidate_result \<and> \<not> ignore_nans rc then
                  (Some (ValueError ''NaN returned in objective function''), s)
                else
                  (let rc1 =
                         (case pruner rc of
                            None \<Rightarrow> rc
                          | Some p \<Rightarrow>
                              if \<not> cr_is_nan candidate_result
                              then rc\<lparr>pruner := Some (p\<lparr>appended := appended p @
                                       [(cr_intermediate_results candidate_result,
                                         cr_was_pruned candidate_result)]\<rparr>)\<rparr>
                              else rc);
                       s1 = s\<lparr>f_cache := cache_commit (f_cache s) candidate (cr_value candidate_result),
                              run_ctx := Some rc1\<rparr>
                   in
                     if cr_was_pruned candidate_result then
                       (None, s1\<lparr>log := log s1 @ notify (callbacks rc1)
                                 (on_evaluate_pruned candidate (pinfo\<lparr>pi_is_pruned := True\<rparr>))\<rparr>)
                     else if cr_is_nan candidate_result then
                       (None, s1\<lparr>log := log s1 @ notify (callbacks rc1)
                                 (on_evaluate_nan candidate (pinfo\<lparr>pi_is_nan := True\<rparr>))\<rparr>)
                     else
                       (let s2 = s1\<lparr>log := log s1 @ notify (callbacks rc1)
                                   (on_evaluate_end candidate (cr_value candidate_result) pinfo)\<rparr>
                        in
                          if improves (direction rc1) (best_f s2) (cr_value candidate_result) then
                            (None, s2\<lparr>best_solution := candidate,
                                      best_f := Some (cr_value candidate_result),
                                      log := log s2 @ notify (callbacks rc1)
                                        (on_new_best candidate (cr_value candidate_result) pinfo)\<rparr>)
                          else (None, s2))))))"

text \<open>
  \<open>Search._submit_candidate\<close> (lines 431 to 453).  The second argument stands for
  \<open>execute\<close> applied to the objective function: it maps a candidate to the result of
  its evaluation.  Without a task executor the candidate is evaluated inline; with one it
  is handed to the pool.
\<close>

type_synonym objective = "tree \<Rightarrow> candidate_result"

definition submit_candidate ::
  "search \<Rightarrow> objective \<Rightarrow> candidate_type \<Rightarrow> tree \<Rightarrow> error option \<times> search" where
  "submit_candidate s objective_function ctype candidate =
     (case run_ctx s of
        None \<Rightarrow> (Some AttributeError, s)
      | Some rc \<Rightarrow>
          (let pinfo = ParamInfo ctype;
               s1 = s\<lparr>log := log s @ notify (callbacks rc) (on_evaluate_start candidate pinfo),
                      f_cache := cache_stage (f_cache s) candidate\<rparr>
           in case task_executor rc of
                None \<Rightarrow>
                  async_result_ready (s1\<lparr>log := log s1 @ [Execute candidate]\<rparr>) candidate pinfo
                    (objective_function candidate)
              | Some down \<Rightarrow> (None, s1\<lparr>log := log s1 @ [Submit candidate pinfo]\<rparr>)))"

text \<open>
  Any sequence of calls of \<open>_async_result_ready\<close> on one \<open>Search\<close> object: what each
  call raised, and the object after the last call.  \<open>abort_count\<close> counts the calls that
  ran the abort sequence of lines 481 to 489.
\<close>

fun process_results ::
  "search \<Rightarrow> (tree \<times> param_info \<times> candidate_result) list \<Rightarrow> error option list \<times> search" where
  "process_results s [] = ([], s)"
| "process_results s ((candidate, pinfo, candidate_result) # tasks) =
     (case async_result_ready s candidate pinfo candidate_result of
        (out, s') \<Rightarrow>
          (case process_results s' tasks of (outs, s'') \<Rightarrow> (out # outs, s'')))"

definition abort_count :: "error option list \<Rightarrow> nat" where
  "abort_count outs =
     length (filter (\<lambda>out. out = Some (ValueError ''Pyhopper - Remote process caught exception'')) outs)"

section \<open>\<open>Search.run\<close>\<close>

text \<open>
  The loops that hand the finished tasks of the pool to \<open>_async_result_ready\<close>
  (lines 461 to 466 and 471 to 476): the first call that raises ends the loop.
\<close>

fun drain_done_tasks ::
  "search \<Rightarrow> (tree \<times> param_info \<times> candidate_result) list \<Rightarrow> error option \<times> search" where
  "drain_done_tasks s [] = (None, s)"
| "drain_done_tasks s ((candidate, pinfo, candidate_result) # tasks) =
     (case async_result_ready s candidate pinfo candidate_result of
        (Some e, s') \<Rightarrow> (Some e, s')
      | (None, s') \<Rightarrow> drain_done_tasks s' tasks)"

text \<open>
  Lines 719 to 723: \<open>current_temperature *= 1.05\<close>, then
  \<open>current_temperature = max(current_temperature, 1)\<close>.
\<close>

definition reject_temperature :: "real \<Rightarrow> real" where
  "reject_temperature current_temperature = max (current_temperature * (105 / 100)) 1"


text \<open>
  The arguments of \<open>run\<close>.  The model is of a run with a budget of steps, one job
  (\<open>n_jobs=1\<close>, so no task executor) and no checkpoint path.  The seeding budget is
  given in steps.  The observers are named by numbers; the history recorder of the search
  is observer 0.
\<close>

record run_config =
  cfg_direction :: string
  cfg_steps :: nat
  cfg_seeding_steps :: nat
  cfg_pruner :: "pruner_obj option"
  cfg_ignore_nans :: bool
  cfg_enable_rejection_cache :: bool
  cfg_callbacks :: "nat list"
  cfg_start_temperature :: real
  cfg_end_temperature :: real
  cfg_keep_history :: bool

text \<open>
  Modelled from the spec: \<open>RunContext\<close> (\<open>run_context.py\<close> is missing) stores the
  direction as \<open>max\<close> or \<open>min\<close>, the two values that \<open>_async_result_ready\<close>
  tests; the admissible arguments of \<open>run\<close> are \<open>max\<close>, \<open>maximize\<close>, \<open>min\<close>
  and \<open>minimize\<close>.
\<close>

definition parse_direction :: "string \<Rightarrow> error + string" where
  "parse_direction d =
     (if d = ''max'' \<or> d = ''maximize'' then Inr ''max''
      else if d = ''min'' \<or> d = ''minimize'' then Inr ''min''
      else Inl (ValueError ''Unknown direction''))"

definition history_observer :: nat where
  "history_observer = 0"

text \<open>The choice of the next candidate (lines 700 to 708).\<close>

definition select_candidate ::
  "oracles \<Rightarrow> search \<Rightarrow> schedule \<Rightarrow> real \<Rightarrow> (error + tree \<times> candidate_type) \<times> search" where
  "select_candidate env s sch current_temperature =
     (case manually_queued_candidates s of
        q # qs \<Rightarrow> (Inr (q, MANUALLY_ADDED), s\<lparr>manually_queued_candidates := qs\<rparr>)
      | [] \<Rightarrow>
          (if is_in_seeding_mode sch then
             (case sample_solution env s (recursion_limit env) PyNone (rng s) of
                Inl e \<Rightarrow> (Inl e, s)
              | Inr (c, r) \<Rightarrow> (Inr (c, RANDOM_SEEDING), s\<lparr>rng := r\<rparr>))
           else
             (case mutate_from_best env s (recursion_limit env) current_temperature PyNone PyNone
                     ([], rng s, []) of
                Inl e \<Rightarrow> (Inl e, s)
              | Inr (c, (bm, r, tr)) \<Rightarrow> (Inr (c, LOCAL_SAMPLING), s\<lparr>rng := r\<rparr>))))"

text \<open>
  One iteration of the loop of \<open>run\<close> (lines 695 to 726).  \<open>schedule\<close> is a local
  variable of \<open>run\<close> that the run context shares: both are kept up to date.
\<close>

definition set_schedule :: "schedule \<Rightarrow> search \<Rightarrow> search" where
  "set_schedule sch s = s\<lparr>run_ctx := map_option (\<lambda>rc. rc\<lparr>sched := sch\<rparr>) (run_ctx s)\<rparr>"

definition loop_body ::
  "oracles \<Rightarrow> objective \<Rightarrow> search \<Rightarrow> schedule \<Rightarrow> real
     \<Rightarrow> error option \<times> search \<times> schedule \<times> real" where
  "loop_body env objective_function s sch current_temperature =
     (if free_param_count s = 0 \<and> manual_queue_count s = 0 then
        (Some (ValueError ''There are not parameters to tune''), s, sch, current_temperature)
      else
        (case select_candidate env s sch current_temperature of
           (Inl e, s1) \<Rightarrow> (Some e, s1, sch, current_temperature)
         | (Inr (candidate, ctype), s1) \<Rightarrow>
             (if \<not> cache_contains (f_cache s1) candidate then
                (case submit_candidate s1 objective_function ctype candidate of
                   (Some e, s2) \<Rightarrow> (Some e, s2, sch, current_temperature)
                 | (None, s2) \<Rightarrow>
                     (None, set_schedule (increment_step sch) s2, increment_step sch,
                      schedule_temperature sch))
              else
                (None, set_schedule (increment_step sch) s1, increment_step sch,
                 reject_temperature current_temperature))))"

lemma loop_body_schedule:
  "loop_body env f s sch T = (None, s', sch', T') \<Longrightarrow> sch' = increment_step sch"
  by (auto simp: loop_body_def split: if_splits prod.splits sum.splits option.splits)

function run_loop ::
  "oracles \<Rightarrow> objective \<Rightarrow> search \<Rightarrow> schedule \<Rightarrow> real
     \<Rightarrow> error option \<times> search \<times> schedule \<times> real" where
  "run_loop env objective_function s sch current_temperature =
     (if run_ctx s = None then (Some AttributeError, s, sch, current_temperature)
      else if is_timeout sch then (None, s, sch, current_temperature)
      else
        (case loop_body env objective_function s sch current_temperature of
           (Some e, s', sch', t') \<Rightarrow> (Some e, s', sch', t')
         | (None, s', sch', t') \<Rightarrow> run_loop env objective_function s' sch' t'))"
  by pat_completeness auto
termination
proof (relation "measure (\<lambda>(env, f, s, sch, t). max_steps sch - step sch)", goal_cases)
  case 1
  show ?case by simp
next
  case (2 env f s sch t x1 x2 s' x3 sch' t')
  then have "sch' = increment_step sch"
    using loop_body_schedule [of env f s sch t s' sch' t'] by simp
  with 2 show ?case
    by (auto simp: is_timeout_def increment_step_def)
qed

declare run_loop.simps [simp del]

text \<open>\<open>Search.run\<close> (lines 622 to 739).\<close>

definition run ::
  "oracles \<Rightarrow> search \<Rightarrow> objective \<Rightarrow> run_config \<Rightarrow> (error + tree) \<times> search" where
  "run env s0 objective_function cfg =
     (let s = s0\<lparr>caught_exception := False\<rparr>;
          schedule = \<lparr>step = 0, max_steps = cfg_steps cfg, seeding_steps = cfg_seeding_steps cfg,
                      start_temperature = cfg_start_temperature cfg,
                      end_temperature = cfg_end_temperature cfg\<rparr>;
          cbs = cfg_callbacks cfg @ (if cfg_keep_history cfg then [history_observer] else [])
      in case parse_direction (cfg_direction cfg) of
           Inl e \<Rightarrow> (Inl e, s)
         | Inr dir \<Rightarrow>
             (let rc = \<lparr>direction = dir, pruner = cfg_pruner cfg, ignore_nans = cfg_ignore_nans cfg,
                        sched = schedule, callbacks = cbs, task_executor = None,
                        terminate = False\<rparr>;
                  s1 = s\<lparr>run_ctx := Some rc,
                         f_cache := cache_set_enable (f_cache s) (cfg_enable_rejection_cache cfg),
                         log := log s @ notify cbs on_search_start\<rparr>;
                  (err, s2, sch2) =
                    (if best_f s1 = None \<and> manual_queue_count s1 = 0 then
                       (case submit_candidate s1 objective_function INIT (best_solution s1) of
                          (Some e, s') \<Rightarrow> (Some e, s', schedule)
                        | (None, s') \<Rightarrow>
                            (None, set_schedule (increment_step schedule) s', increment_step schedule))
                     else (None, s1, schedule))
              in case err of
                   Some e \<Rightarrow> (Inl e, s2)
                 | None \<Rightarrow>
                     (case run_loop env objective_function s2 sch2 (schedule_temperature sch2) of
                        (Some e, s3, sch3, t3) \<Rightarrow> (Inl e, s3)
                      | (None, s3, sch3, t3) \<Rightarrow>
                          (let s4 = s3\<lparr>log := log s3 @ notify cbs on_search_end, run_ctx := None\<rparr>
                           in (Inr (best_solution s4), s4)))))"

text \<open>The candidates that a log shows as evaluated, in the order of their evaluation.\<close>

definition evaluations :: "event list \<Rightarrow> tree list" where
  "evaluations es = concat (map (\<lambda>e. case e of Execute c \<Rightarrow> [c] | _ \<Rightarrow> []) es)"


section \<open>Well-formed search spaces\<close>

text \<open>
  Predicates for the statements about \<open>mutate_from_best\<close>: a tree without the constant
  \<open>None\<close>; the number of nested calls a traversal of the tree needs; and a best
  solution that has an entry wherever the search space has one.
\<close>

fun none_free :: "tree \<Rightarrow> bool" where
  "none_free PyNone = False"
| "none_free (Dict kvs) = list_all (\<lambda>(k, v). none_free v) kvs"
| "none_free (Lst xs) = list_all none_free xs"
| "none_free t = True"

fun tree_depth :: "tree \<Rightarrow> nat" where
  "tree_depth (Dict kvs) = Suc (fold max (map (\<lambda>(k, v). tree_depth v) kvs) 0)"
| "tree_depth (Lst xs) = Suc (fold max (map tree_depth xs) 0)"
| "tree_depth t = 1"

function (sequential) same_shape :: "tree \<Rightarrow> tree \<Rightarrow> bool" where
  "same_shape (Dict kvs) best =
     list_all (\<lambda>(k, v). case dict_get best k of Inl e \<Rightarrow> False | Inr b \<Rightarrow> same_shape v b) kvs"
| "same_shape (Lst xs) best =
     list_all (\<lambda>(i, v). case list_get best i of Inl e \<Rightarrow> False | Inr b \<Rightarrow> same_shape v b)
       (enumerate 0 xs)"
| "same_shape t best = True"
  by pat_completeness auto
termination
  by (relation "measure (\<lambda>(node, best). size node)")
     (auto simp: size_enumerate_less size_dict_entry_less)

text \<open>
  A step of the traversal that pops \<open>n\<close> bits from the end of the bitmask and calls
  \<open>mutate\<close> once for every popped bit that is set.
\<close>

definition pops :: "nat \<Rightarrow> mstate \<Rightarrow> error + ('a \<times> mstate) \<Rightarrow> bool" where
  "pops n st res \<longleftrightarrow>
     (case res of
        Inl e \<Rightarrow> False
      | Inr (c, (bm', r', tr')) \<Rightarrow>
          (\<exists>used. fst st = bm' @ used \<and> length used = n \<and>
                  length tr' = length (snd (snd st)) + length (filter id used)))"

section \<open>Checkpoints: \<open>Search.save\<close> and \<open>Search.load\<close>\<close>

text \<open>
  Modelled from the spec: the checkpoint file and the \<open>state_dict\<close> and
  \<open>load_state_dict\<close> methods of the cache, the history, the run context and the pruner
  (\<open>store_dict\<close>, \<open>load_dict\<close> and \<open>convert_to_checkpoint_path\<close> of \<open>utils.py\<close>,
  and \<open>cache.py\<close>, \<open>callbacks\<close>, \<open>run_context.py\<close> are missing).  The checkpoint
  file is an opaque persisted record that round-trips: the file system maps a path to the
  dict that \<open>store_dict\<close> was given, and \<open>load_dict\<close> returns it.  The state dict of
  the cache is its committed and staged candidates, that of the history its entries, that
  of the run context its direction, its progress through the budget and the state of its
  pruner, that of a pruner what it has been given; \<open>load_state_dict\<close> puts them back.

  The dict that is stored has the keys \<open>run_context\<close>, \<open>cache\<close>, \<open>best_f\<close>,
  \<open>history\<close>, \<open>best_solution\<close> and, with a pruner, \<open>pruner\<close>.  A key that a dict
  does not have is \<open>None\<close> here; the values of \<open>run_context\<close> and \<open>best_f\<close> can
  themselves be Python's \<open>None\<close>.
\<close>

record run_context_state =
  rcs_direction :: string
  rcs_sched :: schedule
  rcs_pruner :: "(real list \<times> bool) list option"

record checkpoint =
  ck_run_context :: "run_context_state option option"
  ck_cache :: "((tree \<times> real) list \<times> tree list) option"
  ck_best_f :: "real option option"
  ck_history :: "(tree \<times> real) list option"
  ck_pruner :: "(real list \<times> bool) list option"
  ck_best_solution :: "tree option"

type_synonym filesystem = "string \<Rightarrow> checkpoint option"

definition cache_state_dict :: "cache \<Rightarrow> (tree \<times> real) list \<times> tree list" where
  "cache_state_dict c = (committed c, staged c)"

definition cache_load_state_dict :: "cache \<Rightarrow> (tree \<times> real) list \<times> tree list \<Rightarrow> cache" where
  "cache_load_state_dict c sd = c\<lparr>committed := fst sd, staged := snd sd\<rparr>"

definition run_context_state_dict :: "run_context \<Rightarrow> run_context_state" where
  "run_context_state_dict rc =
     \<lparr>rcs_direction = direction rc, rcs_sched = sched rc,
      rcs_pruner = map_option appended (pruner rc)\<rparr>"

definition run_context_load_state_dict :: "run_context \<Rightarrow> run_context_state \<Rightarrow> run_context" where
  "run_context_load_state_dict rc sd =
     rc\<lparr>direction := rcs_direction sd, sched := rcs_sched sd,
        pruner := (case (pruner rc, rcs_pruner sd) of
                     (Some p, Some st) \<Rightarrow> Some (p\<lparr>appended := st\<rparr>)
                   | _ \<Rightarrow> pruner rc)\<rparr>"

text \<open>
  \<open>Search.save\<close> (lines 741 to 768).  Two pruners are the same object when their
  numbers agree.  The first argument is \<open>convert_to_checkpoint_path\<close>.
\<close>

definition context_pruner :: "search \<Rightarrow> pruner_obj option" where
  "context_pruner s = (case run_ctx s of None \<Rightarrow> None | Some rc \<Rightarrow> pruner rc)"

definition other_pruner :: "pruner_obj option \<Rightarrow> pruner_obj option \<Rightarrow> bool" where
  "other_pruner given bound =
     (case (given, bound) of
        (Some p, Some q) \<Rightarrow> pruner_id p \<noteq> pruner_id q
      | _ \<Rightarrow> False)"

definition save ::
  "(string \<Rightarrow> string) \<Rightarrow> search \<Rightarrow> filesystem \<Rightarrow> string \<Rightarrow> pruner_obj option
     \<Rightarrow> (error + string) \<times> filesystem" where
  "save convert_to_checkpoint_path s fs path pruner_arg =
     (if other_pruner pruner_arg (context_pruner s) then
        (Inl (ValueError ''Error. Pruner object passed to save and other pruner object passed to run''),
         fs)
      else
        (let p = (case context_pruner s of None \<Rightarrow> pruner_arg | Some q \<Rightarrow> Some q);
             state_dict =
               \<lparr>ck_run_context =
                  Some (case run_ctx s of
                          None \<Rightarrow> None
                        | Some rc \<Rightarrow> if terminate rc then None else Some (run_context_state_dict rc)),
                ck_cache = Some (cache_state_dict (f_cache s)),
                ck_best_f = Some (best_f s),
                ck_history = Some (history s),
                ck_pruner = map_option appended p,
                ck_best_solution = Some (best_solution s)\<rparr>;
             file = convert_to_checkpoint_path path
         in (Inr file, fs(file := Some state_dict))))"

text \<open>
  \<open>Search.load\<close> (lines 770 to 800).  The \<open>KeyError\<close> of a missing key is turned
  into a \<open>ValueError\<close> whose message holds the path and the key; every other exception
  passes.  The assignments made before the exception stay.  The third component of the
  result is the pruner that was passed in, whose state may have been loaded.
\<close>

definition could_not_parse :: "string \<Rightarrow> string \<Rightarrow> error" where
  "could_not_parse path key = ValueError (''Could not parse file '' @ path @ '' ('' @ key @ '')'')"

definition load_pruner ::
  "search \<Rightarrow> (real list \<times> bool) list \<Rightarrow> pruner_obj option
     \<Rightarrow> error option \<times> search \<times> pruner_obj option" where
  "load_pruner s st pruner_arg =
     (case run_ctx s of
        None \<Rightarrow> (None, s, map_option (\<lambda>p. p\<lparr>appended := st\<rparr>) pruner_arg)
      | Some rc \<Rightarrow>
          (case pruner rc of
             None \<Rightarrow> (None, s, map_option (\<lambda>p. p\<lparr>appended := st\<rparr>) pruner_arg)
           | Some q \<Rightarrow>
               if other_pruner pruner_arg (Some q) then
                 (Some (ValueError
                    ''Error. Pruner object passed to load and other pruner object passed to run''),
                  s, pruner_arg)
               else
                 (None, s\<lparr>run_ctx := Some (rc\<lparr>pruner := Some (q\<lparr>appended := st\<rparr>)\<rparr>)\<rparr>,
                  map_option (\<lambda>p. p\<lparr>appended := st\<rparr>) pruner_arg)))"

definition load ::
  "search \<Rightarrow> filesystem \<Rightarrow> string \<Rightarrow> pruner_obj option
     \<Rightarrow> error option \<times> search \<times> pruner_obj option" where
  "load s fs path pruner_arg =
     (case fs path of
        None \<Rightarrow> (Some FileNotFoundError, s, pruner_arg)
      | Some state_dict \<Rightarrow>
          (case ck_run_context state_dict of
             None \<Rightarrow> (Some (could_not_parse path ''run_context''), s, pruner_arg)
           | Some saved_context \<Rightarrow>
               (case (case saved_context of
                        None \<Rightarrow> Inr s
                      | Some sd \<Rightarrow>
                          (case run_ctx s of
                             None \<Rightarrow> Inl AttributeError
                           | Some rc \<Rightarrow> Inr (s\<lparr>run_ctx := Some (run_context_load_state_dict rc sd)\<rparr>))) of
                  Inl e \<Rightarrow> (Some e, s, pruner_arg)
                | Inr s1 \<Rightarrow>
                    (case ck_cache state_dict of
                       None \<Rightarrow> (Some (could_not_parse path ''cache''), s1, pruner_arg)
                     | Some c \<Rightarrow>
                         (let s2 = s1\<lparr>f_cache := cache_load_state_dict (f_cache s1) c\<rparr>
                          in case ck_history state_dict of
                               None \<Rightarrow> (Some (could_not_parse path ''history''), s2, pruner_arg)
                             | Some h \<Rightarrow>
                                 (let s3 = s2\<lparr>history := h\<rparr>
                                  in case ck_best_f state_dict of
                                       None \<Rightarrow> (Some (could_not_parse path ''best_f''), s3, pruner_arg)
                                     | Some bf \<Rightarrow>
                                         (let s4 = s3\<lparr>best_f := bf\<rparr>
                                          in case ck_best_solution state_dict of
                                               None \<Rightarrow>
                                                 (Some (could_not_parse path ''best_solution''), s4,
                                                  pruner_arg)
                                             | Some b \<Rightarrow>
                                                 (let s5 = s4\<lparr>best_solution := b\<rparr>
                                                  in case ck_pruner state_dict of
                                                       None \<Rightarrow> (None, s5, pruner_arg)
                                                     | Some st \<Rightarrow> load_pruner s5 st pruner_arg))))))))"

section \<open>\<open>register_int\<close>\<close>









section \<open>Concrete inputs\<close>

text \<open>
  Modelled from the spec: \<open>execute\<close> (\<open>parallel.py\<close> is missing) on an objective
  function that returns the number \<open>v\<close> for every candidate gives a result with that
  value and no error, NaN or pruning.
\<close>

definition constant_objective :: "real \<Rightarrow> objective" where
  "constant_objective v =
     (\<lambda>candidate. \<lparr>cr_value = v, cr_error = None, cr_is_nan = False, cr_was_pruned = False,
                    cr_intermediate_results = []\<rparr>)"

text \<open>
  A search space of two integer parameters, \<open>Search(x=..., y=...)\<close>, whose initial
  values are 0; every random draw gives a new number, and the shuffle leaves the list as
  it is.
\<close>

definition ex_params :: tree where
  "ex_params = Dict [(''x'', Param 0), (''y'', Param 1)]"

definition ex_env :: oracles where
  "ex_env =
     \<lparr>initial_value = (\<lambda>p. Const (VInt 0)),
      p_sample = (\<lambda>r p. Const (VInt (int r + 1))),
      p_mutate = (\<lambda>r p best t. Const (VInt (int r + 1))),
      shuffle = (\<lambda>r bitmask. bitmask),
      recursion_limit = 4\<rparr>"

definition ex_search :: search where
  "ex_search = init_search ex_env ex_params"

definition ex_schedule :: schedule where
  "ex_schedule =
     \<lparr>step = 1, max_steps = 5, seeding_steps = 1, start_temperature = 1, end_temperature = 0\<rparr>"

definition ex_context :: run_context where
  "ex_context =
     \<lparr>direction = ''max'', pruner = None, ignore_nans = False, sched = ex_schedule,
      callbacks = [history_observer], task_executor = None, terminate = False\<rparr>"

definition ex_candidate :: tree where
  "ex_candidate = Dict [(''x'', Const (VInt 3)), (''y'', Const (VInt 4))]"

text \<open>
  Results of evaluations: one whose objective function raised, and one that was pruned at
  an intermediate estimate that is NaN.
\<close>

definition error_result :: "string \<Rightarrow> candidate_result" where
  "error_result err =
     \<lparr>cr_value = 0, cr_error = Some err, cr_is_nan = False, cr_was_pruned = False,
      cr_intermediate_results = []\<rparr>"

definition pruned_nan_result :: candidate_result where
  "pruned_nan_result =
     \<lparr>cr_value = 0, cr_error = None, cr_is_nan = True, cr_was_pruned = True,
      cr_intermediate_results = []\<rparr>"

definition nan_result :: candidate_result where
  "nan_result =
     \<lparr>cr_value = 0, cr_error = None, cr_is_nan = True, cr_was_pruned = False,
      cr_intermediate_results = []\<rparr>"

text \<open>
  A search space with a constant \<open>None\<close>, \<open>Search(a=None, b=...)\<close>: the dummy
  parameter that the error message of \<open>_enqueue_rec\<close> (line 320) recommends.
\<close>

definition none_params :: tree where
  "none_params = Dict [(''a'', PyNone), (''b'', Param 0)]"





text \<open>
  A search in the middle of a run, right after the baseline evaluation (when a checkpoint
  observer saves), and a file system without files.
\<close>

definition ex_midrun :: search where
  "ex_midrun =
     snd (submit_candidate (ex_search\<lparr>run_ctx := Some ex_context\<rparr>) (constant_objective 1) INIT
            (best_solution ex_search))"

definition no_files :: filesystem where
  "no_files = (\<lambda>path. None)"

text \<open>A checkpoint of a run in progress that lacks the key \<open>cache\<close>.\<close>

definition ex_broken_checkpoint :: checkpoint where
  "ex_broken_checkpoint =
     \<lparr>ck_run_context = Some (Some (run_context_state_dict ex_context)),
      ck_cache = None,
      ck_best_f = Some (Some 1),
      ck_history = Some [],
      ck_pruner = None,
      ck_best_solution = Some (best_solution ex_search)\<rparr>"

section \<open>The temperature after a duplicate\<close>

text \<open>
  C1.  The claim: on a duplicate rejection the current temperature is multiplied by 1.05
  and capped at a maximum of 1, so it never exceeds 1.  The code takes the maximum of the
  product and 1, where the claim (and the comment "increase temperature by 5%") needs the
  minimum: from the temperature 1 a rejection gives 1.05.
\<close>

theorem reject_temperature_exceeds_one:
  "reject_temperature 1 = 105 / 100 \<and> 1 < reject_temperature 1"
  by (simp add: reject_temperature_def)

text \<open>
  The rejection never leaves a temperature below 1 (so the product is never only a
  five percent increase of a temperature below \<open>20/21\<close>).
\<close>

lemma reject_temperature_ge_one: "1 \<le> reject_temperature t"
  by (simp add: reject_temperature_def)

lemma reject_temperature_half: "reject_temperature (1 / 2) = 1"
  by (simp add: reject_temperature_def)

section \<open>Results of evaluations: \<open>_async_result_ready\<close>\<close>

text \<open>
  C3.  For a completed evaluation with no error, no NaN and no pruning, processed during
  a run, \<open>_async_result_ready\<close> returns normally, and the stored best solution and
  best value are replaced by the candidate and its value if and only if there is no best
  value yet, or the value is strictly greater than the best value and the direction is
  \<open>max\<close>, or strictly less and the direction is \<open>min\<close>; otherwise both stay as
  they were.  A value equal to the best value replaces nothing.  The observers are told
  of a new best exactly when it is replaced.
\<close>

theorem async_result_ready_best_update:
  assumes "cr_error r = None" and "\<not> cr_is_nan r" and "\<not> cr_was_pruned r"
    and "run_ctx s = Some rc"
  shows "fst (async_result_ready s c pinfo r) = None \<and>
    (let s' = snd (async_result_ready s c pinfo r);
         better = (best_f s = None \<or>
                   (\<exists>b. best_f s = Some b \<and>
                      ((direction rc = ''max'' \<and> b < cr_value r) \<or>
                       (direction rc = ''min'' \<and> cr_value r < b))))
     in (better \<longrightarrow> best_solution s' = c \<and> best_f s' = Some (cr_value r)) \<and>
        (\<not> better \<longrightarrow> best_solution s' = best_solution s \<and> best_f s' = best_f s) \<and>
        (best_f s = Some (cr_value r) \<longrightarrow>
           best_solution s' = best_solution s \<and> best_f s' = best_f s) \<and>
        log s' = log s @ notify (callbacks rc) (on_evaluate_end c (cr_value r) pinfo)
                 @ (if better then notify (callbacks rc) (on_new_best c (cr_value r) pinfo) else []))"
  using assms
  by (cases "best_f s")
     (auto simp: async_result_ready_def improves_def Let_def split: option.splits)

text \<open>
  The theorem at a run that maximises with best value 1: the value 2 replaces the best
  solution.
\<close>

theorem async_result_ready_best_update_witness:
  "best_solution (snd (async_result_ready (ex_search\<lparr>run_ctx := Some ex_context, best_f := Some 1\<rparr>)
       ex_candidate (ParamInfo LOCAL_SAMPLING) (constant_objective 2 ex_candidate))) = ex_candidate
   \<and> best_f (snd (async_result_ready (ex_search\<lparr>run_ctx := Some ex_context, best_f := Some 1\<rparr>)
       ex_candidate (ParamInfo LOCAL_SAMPLING) (constant_objective 2 ex_candidate))) = Some 2"
proof -
  let ?s = "ex_search\<lparr>run_ctx := Some ex_context, best_f := Some 1\<rparr>"
  let ?r = "constant_objective 2 ex_candidate"
  have h: "cr_error ?r = None" "\<not> cr_is_nan ?r" "\<not> cr_was_pruned ?r" "run_ctx ?s = Some ex_context"
    by (simp_all add: constant_objective_def)
  have v: "cr_value ?r = 2" "direction ex_context = ''max''"
    by (simp_all add: constant_objective_def ex_context_def)
  show ?thesis
    using async_result_ready_best_update [OF h, of ex_candidate "ParamInfo LOCAL_SAMPLING"]
    by (simp add: Let_def v)
qed

text \<open>
  The same at a tie: the value 1 against the best value 1 leaves the best solution, the
  initial one, in place.
\<close>

lemma async_result_ready_tie:
  "best_solution (snd (async_result_ready (ex_search\<lparr>run_ctx := Some ex_context, best_f := Some 1\<rparr>)
       ex_candidate (ParamInfo LOCAL_SAMPLING) (constant_objective 1 ex_candidate)))
     = best_solution ex_search"
  by (simp add: async_result_ready_def constant_objective_def ex_context_def improves_def Let_def)

subsection \<open>Errors of the objective function\<close>

lemma async_result_ready_caught:
  "caught_exception s \<Longrightarrow> caught_exception (snd (async_result_ready s c p r))"
  by (auto simp: async_result_ready_def Let_def shutdown_worker_processes_def
      split: option.splits prod.splits)

lemma async_result_ready_caught_no_abort:
  "caught_exception s \<Longrightarrow>
     fst (async_result_ready s c p r) \<noteq> Some (ValueError ''Pyhopper - Remote process caught exception'')"
  by (auto simp: async_result_ready_def Let_def shutdown_worker_processes_def
      split: option.splits prod.splits)

lemma async_result_ready_abort_sets_flag:
  "fst (async_result_ready s c p r) = Some (ValueError ''Pyhopper - Remote process caught exception'')
     \<Longrightarrow> caught_exception (snd (async_result_ready s c p r))"
  by (auto simp: async_result_ready_def Let_def shutdown_worker_processes_def
      split: option.splits prod.splits if_splits)

lemma process_results_caught_no_abort:
  "caught_exception s \<Longrightarrow> abort_count (fst (process_results s tasks)) = 0"
proof (induction tasks arbitrary: s)
  case Nil
  then show ?case by (simp add: abort_count_def)
next
  case (Cons t tasks)
  obtain c p r where t: "t = (c, p, r)" by (cases t)
  obtain out s' where a: "async_result_ready s c p r = (out, s')"
    by (cases "async_result_ready s c p r")
  from Cons.prems a have "caught_exception s'"
    using async_result_ready_caught [of s c p r] by simp
  then have ih: "abort_count (fst (process_results s' tasks)) = 0"
    by (rule Cons.IH)
  from Cons.prems a have "out \<noteq> Some (ValueError ''Pyhopper - Remote process caught exception'')"
    using async_result_ready_caught_no_abort [of s c p r] by simp
  with ih t a show ?case
    by (auto simp: abort_count_def split: prod.splits)
qed

lemma process_results_abort_once:
  "abort_count (fst (process_results s tasks)) \<le> 1"
proof (induction tasks arbitrary: s)
  case Nil
  then show ?case by (simp add: abort_count_def)
next
  case (Cons t tasks)
  obtain c p r where t: "t = (c, p, r)" by (cases t)
  obtain out s' where a: "async_result_ready s c p r = (out, s')"
    by (cases "async_result_ready s c p r")
  show ?case
  proof (cases "out = Some (ValueError ''Pyhopper - Remote process caught exception'')")
    case True
    with a have "caught_exception s'"
      using async_result_ready_abort_sets_flag [of s c p r] by simp
    then have "abort_count (fst (process_results s' tasks)) = 0"
      by (rule process_results_caught_no_abort)
    with t a True show ?thesis
      by (auto simp: abort_count_def split: prod.splits)
  next
    case False
    with t a Cons.IH [of s'] show ?thesis
      by (auto simp: abort_count_def split: prod.splits)
  qed
qed

text \<open>
  C5.  A result that carries an error, processed during a run: when the caught-exception
  state is not set, \<open>_async_result_ready\<close> sets it, shuts the worker pool down (when
  the run has one: the pool is marked shut down and its child processes are signalled),
  prints the error and raises the fatal \<open>ValueError\<close>; when the state is set, the call
  returns without raising and changes nothing.  So in any sequence of results processed
  on one \<open>Search\<close> object the abort sequence runs at most once.
\<close>

theorem async_result_ready_error_once:
  assumes "cr_error r = Some err" and "run_ctx s = Some rc"
  shows "(\<not> caught_exception s \<longrightarrow>
            fst (async_result_ready s c pinfo r)
              = Some (ValueError ''Pyhopper - Remote process caught exception'') \<and>
            caught_exception (snd (async_result_ready s c pinfo r)) \<and>
            (task_executor rc \<noteq> None \<longrightarrow>
               run_ctx (snd (async_result_ready s c pinfo r)) = Some (rc\<lparr>task_executor := Some True\<rparr>) \<and>
               log (snd (async_result_ready s c pinfo r))
                 = log s @ [PoolShutdown, ChildrenSigterm, PrintError err])) \<and>
         (caught_exception s \<longrightarrow> async_result_ready s c pinfo r = (None, s)) \<and>
         (\<forall>tasks. abort_count (fst (process_results s tasks)) \<le> 1)"
  using assms process_results_abort_once
  by (auto simp: async_result_ready_def shutdown_worker_processes_def split: option.splits)

text \<open>
  The theorem at a run with a worker pool: the first error raises and shuts the pool
  down, and two errors in a row abort once.
\<close>

theorem async_result_ready_error_once_witness:
  "fst (async_result_ready (ex_search\<lparr>run_ctx := Some (ex_context\<lparr>task_executor := Some False\<rparr>)\<rparr>)
          ex_candidate (ParamInfo LOCAL_SAMPLING) (error_result ''boom''))
     = Some (ValueError ''Pyhopper - Remote process caught exception'')
   \<and> log (snd (async_result_ready (ex_search\<lparr>run_ctx := Some (ex_context\<lparr>task_executor := Some False\<rparr>)\<rparr>)
          ex_candidate (ParamInfo LOCAL_SAMPLING) (error_result ''boom'')))
     = [PoolShutdown, ChildrenSigterm, PrintError ''boom'']
   \<and> abort_count (fst (process_results (ex_search\<lparr>run_ctx := Some (ex_context\<lparr>task_executor := Some False\<rparr>)\<rparr>)
          [(ex_candidate, ParamInfo LOCAL_SAMPLING, error_result ''boom''),
           (ex_candidate, ParamInfo LOCAL_SAMPLING, error_result ''boom'')])) \<le> 1"
proof -
  let ?rc = "ex_context\<lparr>task_executor := Some False\<rparr>"
  let ?s = "ex_search\<lparr>run_ctx := Some ?rc\<rparr>"
  have h: "cr_error (error_result ''boom'') = Some ''boom''" "run_ctx ?s = Some ?rc"
    by (simp_all add: error_result_def)
  have n: "\<not> caught_exception ?s" "task_executor ?rc \<noteq> None" "log ?s = []"
    by (simp_all add: ex_search_def init_search_def)
  show ?thesis
    using async_result_ready_error_once [OF h, of ex_candidate "ParamInfo LOCAL_SAMPLING"] n
    by (simp del: process_results.simps)
qed

subsection \<open>NaN results\<close>

text \<open>
  C6, as the claim states it, fails: with \<open>ignore_nans\<close> set, a result that is NaN and
  also pruned is reported to the observers through \<open>on_evaluate_pruned\<close>, not through
  \<open>on_evaluate_nan\<close>, because the pruned test of line 507 comes first.
\<close>

theorem async_result_ready_nan_pruned_counterexample:
  "cr_is_nan pruned_nan_result \<and> cr_error pruned_nan_result = None
   \<and> ignore_nans (ex_context\<lparr>ignore_nans := True\<rparr>)
   \<and> log (snd (async_result_ready (ex_search\<lparr>run_ctx := Some (ex_context\<lparr>ignore_nans := True\<rparr>)\<rparr>)
         ex_candidate (ParamInfo LOCAL_SAMPLING) pruned_nan_result))
     = [Notify history_observer
          (on_evaluate_pruned ex_candidate ((ParamInfo LOCAL_SAMPLING)\<lparr>pi_is_pruned := True\<rparr>))]
   \<and> Notify history_observer
          (on_evaluate_nan ex_candidate ((ParamInfo LOCAL_SAMPLING)\<lparr>pi_is_nan := True\<rparr>))
       \<notin> set (log (snd (async_result_ready
             (ex_search\<lparr>run_ctx := Some (ex_context\<lparr>ignore_nans := True\<rparr>)\<rparr>)
             ex_candidate (ParamInfo LOCAL_SAMPLING) pruned_nan_result)))"
  by (simp add: async_result_ready_def pruned_nan_result_def ex_context_def ex_search_def
      init_search_def notify_def Let_def)

text \<open>
  C6, amended.  A result with the NaN indicator and no error, processed during a run:
  when \<open>ignore_nans\<close> is false, \<open>_async_result_ready\<close> raises the fatal
  \<open>ValueError\<close> and changes nothing; when it is true, the call returns normally,
  leaves the best solution and the best value as they were, and notifies the observers
  through \<open>on_evaluate_nan\<close> if the result is not pruned and through
  \<open>on_evaluate_pruned\<close> if it is.
\<close>

theorem async_result_ready_nan:
  assumes "cr_is_nan r" and "cr_error r = None" and "run_ctx s = Some rc"
  shows "(\<not> ignore_nans rc \<longrightarrow>
            async_result_ready s c pinfo r
              = (Some (ValueError ''NaN returned in objective function''), s)) \<and>
         (ignore_nans rc \<longrightarrow>
            fst (async_result_ready s c pinfo r) = None \<and>
            best_solution (snd (async_result_ready s c pinfo r)) = best_solution s \<and>
            best_f (snd (async_result_ready s c pinfo r)) = best_f s \<and>
            log (snd (async_result_ready s c pinfo r))
              = log s @ notify (callbacks rc)
                  (if cr_was_pruned r then on_evaluate_pruned c (pinfo\<lparr>pi_is_pruned := True\<rparr>)
                   else on_evaluate_nan c (pinfo\<lparr>pi_is_nan := True\<rparr>)))"
  using assms
  by (auto simp: async_result_ready_def Let_def split: option.splits)

text \<open>The theorem at a NaN that is not pruned, in a run that ignores NaNs and in one that does not.\<close>

theorem async_result_ready_nan_witness:
  "log (snd (async_result_ready (ex_search\<lparr>run_ctx := Some (ex_context\<lparr>ignore_nans := True\<rparr>)\<rparr>)
         ex_candidate (ParamInfo LOCAL_SAMPLING) nan_result))
     = [Notify history_observer
          (on_evaluate_nan ex_candidate ((ParamInfo LOCAL_SAMPLING)\<lparr>pi_is_nan := True\<rparr>))]
   \<and> best_f (snd (async_result_ready (ex_search\<lparr>run_ctx := Some (ex_context\<lparr>ignore_nans := True\<rparr>)\<rparr>)
         ex_candidate (ParamInfo LOCAL_SAMPLING) nan_result)) = None
   \<and> fst (async_result_ready (ex_search\<lparr>run_ctx := Some ex_context\<rparr>)
         ex_candidate (ParamInfo LOCAL_SAMPLING) nan_result)
     = Some (ValueError ''NaN returned in objective function'')"
proof -
  let ?rc = "ex_context\<lparr>ignore_nans := True\<rparr>"
  let ?s = "ex_search\<lparr>run_ctx := Some ?rc\<rparr>"
  let ?t = "ex_search\<lparr>run_ctx := Some ex_context\<rparr>"
  have h: "cr_is_nan nan_result" "cr_error nan_result = None"
    by (simp_all add: nan_result_def)
  have a: "run_ctx ?s = Some ?rc" and b: "run_ctx ?t = Some ex_context"
    by simp_all
  have c: "ignore_nans ?rc" "\<not> ignore_nans ex_context" "\<not> cr_was_pruned nan_result"
    "log ?s = []" "best_f ?s = None" "callbacks ?rc = [history_observer]"
    by (simp_all add: ex_context_def nan_result_def ex_search_def init_search_def)
  show ?thesis
    using async_result_ready_nan [OF h a, of ex_candidate "ParamInfo LOCAL_SAMPLING"]
      async_result_ready_nan [OF h b, of ex_candidate "ParamInfo LOCAL_SAMPLING"] c
    by (simp add: notify_def)
qed

section \<open>\<open>mutate_from_best\<close> and \<open>sample_solution\<close> on a constant \<open>None\<close>\<close>

text \<open>
  A node that is the constant \<open>None\<close> is taken for the missing \<open>node\<close> argument of a
  call at the root, so the traversal starts again at the root, where it meets the same
  node: the recursion ends only when the stack is used up.
\<close>

lemma mutate_from_best_none_first:
  assumes "params s = Dict ((k, PyNone) # kvs)" and "dict_get (best_solution s) k = Inr b"
  shows "mutate_from_best env s d t PyNone best st = Inl RecursionError"
proof (induction d arbitrary: t best st)
  case 0
  show ?case by simp
next
  case (Suc d)
  obtain bm r tr where st: "st = (bm, r, tr)" by (cases st)
  show ?case
    unfolding st using assms
    by (simp add: Let_def Suc.IH)
qed

lemma sample_solution_none_first:
  assumes "params s = Dict ((k, PyNone) # kvs)"
  shows "sample_solution env s d PyNone r = Inl RecursionError"
proof (induction d arbitrary: r)
  case 0
  show ?case by simp
next
  case (Suc d)
  show ?case
    using assms by (simp add: Suc.IH)
qed

text \<open>
  C4.  The claim: every call of \<open>mutate_from_best\<close> at the root with
  \<open>free_param_count = n > 0\<close> mutates \<open>max(round(t * n), 1)\<close> parameters, and
  constants pass through unchanged.  On the search space \<open>Search(a=None, b=...)\<close>, which
  has one free parameter, the call mutates nothing and returns nothing: it raises
  \<open>RecursionError\<close>, whatever the temperature, the random draws and the depth of stack
  that is left.
\<close>

theorem mutate_from_best_none_constant:
  "mutate_from_best env (init_search env none_params) (recursion_limit env) temperature
     PyNone PyNone ([], 0, []) = Inl RecursionError
   \<and> free_param_count (init_search env none_params) = 1"
  by (simp add: mutate_from_best_none_first [where k = "''a''" and b = PyNone]
      init_search_def none_params_def)

lemma sample_solution_none_constant:
  "sample_solution env (init_search env none_params) (recursion_limit env) PyNone 0
     = Inl RecursionError"
  by (simp add: sample_solution_none_first [where k = "''a''"] init_search_def none_params_def)

subsection \<open>Search spaces without the constant \<open>None\<close>\<close>

text \<open>
  On a search space without the constant \<open>None\<close> the count of the claim holds.  Every
  node pops as many bits from the bitmask as it has parameters and calls \<open>mutate\<close> for
  the bits that are set.
\<close>

lemma popsI:
  "res = Inr (c, (bm', r', tr')) \<Longrightarrow> bm = bm' @ used \<Longrightarrow> length used = n \<Longrightarrow>
   length tr' = length tr + length (filter id used) \<Longrightarrow> pops n (bm, r, tr) res"
  by (auto simp: pops_def)

lemma popsE:
  assumes "pops n (bm, r, tr) res"
  obtains c bm' r' tr' used where "res = Inr (c, (bm', r', tr'))" "bm = bm' @ used"
    "length used = n" "length tr' = length tr + length (filter id used)"
  using assms by (auto simp: pops_def split: sum.splits prod.splits)

lemma pops_wrap:
  "pops n st res \<Longrightarrow> pops n st (case res of Inl e \<Rightarrow> Inl e | Inr (c, st') \<Rightarrow> Inr (w c, st'))"
  by (auto simp: pops_def split: sum.splits prod.splits)

lemma map_state_pops:
  assumes "\<And>x bm r tr. x \<in> set xs \<Longrightarrow> cnt x \<le> length bm \<Longrightarrow> pops (cnt x) (bm, r, tr) (f x (bm, r, tr))"
    and "sum_list (map cnt xs) \<le> length bm"
  shows "pops (sum_list (map cnt xs)) (bm, r, tr) (map_state f xs (bm, r, tr))"
  using assms
proof (induction xs arbitrary: bm r tr)
  case Nil
  then show ?case by (simp add: pops_def)
next
  case (Cons x xs)
  have "cnt x \<le> length bm" using Cons.prems(2) by simp
  then have "pops (cnt x) (bm, r, tr) (f x (bm, r, tr))"
    using Cons.prems(1) by simp
  then obtain c bm1 r1 tr1 used1 where
    f: "f x (bm, r, tr) = Inr (c, (bm1, r1, tr1))" and bm: "bm = bm1 @ used1"
    and l1: "length used1 = cnt x" and t1: "length tr1 = length tr + length (filter id used1)"
    by (rule popsE)
  have len: "sum_list (map cnt xs) \<le> length bm1"
    using Cons.prems(2) bm l1 by simp
  have "pops (sum_list (map cnt xs)) (bm1, r1, tr1) (map_state f xs (bm1, r1, tr1))"
    by (rule Cons.IH) (use Cons.prems(1) len in auto)
  then obtain cs bm2 r2 tr2 used2 where
    m: "map_state f xs (bm1, r1, tr1) = Inr (cs, (bm2, r2, tr2))" and bm1: "bm1 = bm2 @ used2"
    and l2: "length used2 = sum_list (map cnt xs)"
    and t2: "length tr2 = length tr1 + length (filter id used2)"
    by (rule popsE)
  have res: "map_state f (x # xs) (bm, r, tr) = Inr (c # cs, (bm2, r2, tr2))"
    by (simp add: f m)
  show ?case
    by (rule popsI [OF res, where used = "used2 @ used1"]) (simp_all add: bm bm1 l1 l2 t1 t2)
qed

lemma fold_max_ge_init: "a \<le> fold max xs (a::nat)"
proof (induction xs arbitrary: a)
  case Nil
  show ?case by simp
next
  case (Cons x xs)
  have "a \<le> max x a" by simp
  also have "max x a \<le> fold max xs (max x a)" by (rule Cons.IH)
  finally show ?case by simp
qed

lemma fold_max_ge: "x \<in> set xs \<Longrightarrow> x \<le> fold max xs (a::nat)"
proof (induction xs arbitrary: a)
  case Nil
  then show ?case by simp
next
  case (Cons y ys)
  show ?case
  proof (cases "x = y")
    case True
    have "x \<le> max y a" using True by simp
    also have "max y a \<le> fold max ys (max y a)" by (rule fold_max_ge_init)
    finally show ?thesis by simp
  next
    case False
    with Cons.prems have "x \<in> set ys" by simp
    then show ?thesis using Cons.IH by simp
  qed
qed

lemma mutate_Param:
  "mutate_from_best env s (Suc d) t (Param p) best (bm, r, tr) =
     (if bm = [] then Inl IndexError
      else if last bm then Inr (p_mutate env r p best t, (butlast bm, Suc r, tr @ [p]))
      else Inr (best, (butlast bm, r, tr)))"
  by (simp add: Let_def)

lemma mutate_Const:
  "mutate_from_best env s (Suc d) t (Const c) best (bm, r, tr) = Inr (Const c, (bm, r, tr))"
  by (simp add: Let_def)

lemma mutate_Dict:
  "mutate_from_best env s (Suc d) t (Dict kvs) best (bm, r, tr) =
     (case map_state (\<lambda>(k, v) st.
              (case dict_get best k of
                 Inl e \<Rightarrow> Inl e
               | Inr b \<Rightarrow>
                   (case mutate_from_best env s d t v b st of
                      Inl e \<Rightarrow> Inl e
                    | Inr (c, st') \<Rightarrow> Inr ((k, c), st')))) kvs (bm, r, tr) of
        Inl e \<Rightarrow> Inl e
      | Inr (cs, st') \<Rightarrow> Inr (Dict cs, st'))"
  by (simp add: Let_def split: sum.splits prod.splits)

lemma mutate_Lst:
  "mutate_from_best env s (Suc d) t (Lst xs) best (bm, r, tr) =
     (case map_state (\<lambda>i st.
              (case list_get best i of
                 Inl e \<Rightarrow> Inl e
               | Inr b \<Rightarrow> mutate_from_best env s d t (xs ! i) b st))
            [0..<length xs] (bm, r, tr) of
        Inl e \<Rightarrow> Inl e
      | Inr (cs, st') \<Rightarrow> Inr (Lst cs, st'))"
  by (simp add: Let_def split: sum.splits prod.splits)

lemma mutate_root:
  assumes "params s \<noteq> PyNone"
  shows "mutate_from_best env s (Suc d) t PyNone best (bm, r, tr) =
     (case mutate_from_best env s (Suc d) (clip t 0 1) (params s) (best_solution s)
             (shuffle env r (fresh_bitmask (amount_to_mutate (clip t 0 1) (free_param_count s))
                               (free_param_count s)), Suc r, tr) of
        Inl e \<Rightarrow> Inl e
      | Inr (c, (bm', st')) \<Rightarrow> Inr (c, (bm, st')))"
  using assms
  by (cases "params s") (simp_all add: Let_def split: sum.splits prod.splits)


lemma same_shape_DictD:
  assumes "same_shape (Dict kvs) best" and "(k, v) \<in> set kvs"
  obtains b where "dict_get best k = Inr b" and "same_shape v b"
proof -
  from assms have "case dict_get best k of Inl e \<Rightarrow> False | Inr b \<Rightarrow> same_shape v b"
    by (auto simp: list_all_iff)
  then show thesis
    using that by (cases "dict_get best k") auto
qed

lemma same_shape_LstD:
  assumes "same_shape (Lst xs) best" and "i < length xs"
  obtains b where "list_get best i = Inr b" and "same_shape (xs ! i) b"
proof -
  from assms(2) have "(i, xs ! i) \<in> set (enumerate 0 xs)"
    by (simp add: in_set_enumerate_eq)
  with assms(1) have "case list_get best i of Inl e \<Rightarrow> False | Inr b \<Rightarrow> same_shape (xs ! i) b"
    by (auto simp: list_all_iff)
  then show thesis
    using that by (cases "list_get best i") auto
qed

lemma mutate_pops:
  assumes "none_free node" and "tree_depth node \<le> d" and "same_shape node best"
    and "count_free_parameters_rec node \<le> length bm"
  shows "pops (count_free_parameters_rec node) (bm, r, tr)
           (mutate_from_best env s d t node best (bm, r, tr))"
  using assms
proof (induction d arbitrary: node best bm r tr)
  case 0
  then show ?case by (cases node) simp_all
next
  case (Suc d)
  show ?case
  proof (cases node)
    case (Param p)
    with Suc.prems(4) have ne: "bm \<noteq> []" by auto
    show ?thesis
    proof (cases "last bm")
      case True
      show ?thesis
        unfolding Param
      proof (rule popsI [where used = "[last bm]"])
        show "mutate_from_best env s (Suc d) t (Param p) best (bm, r, tr)
            = Inr (p_mutate env r p best t, (butlast bm, Suc r, tr @ [p]))"
          using ne True by (simp add: mutate_Param)
        show "bm = butlast bm @ [last bm]"
          using ne by simp
        show "length [last bm] = count_free_parameters_rec (Param p)"
          by simp
        show "length (tr @ [p]) = length tr + length (filter id [last bm])"
          using True by simp
      qed
    next
      case False
      show ?thesis
        unfolding Param
      proof (rule popsI [where used = "[last bm]"])
        show "mutate_from_best env s (Suc d) t (Param p) best (bm, r, tr)
            = Inr (best, (butlast bm, r, tr))"
          using ne False by (simp add: mutate_Param)
        show "bm = butlast bm @ [last bm]"
          using ne by simp
        show "length [last bm] = count_free_parameters_rec (Param p)"
          by simp
        show "length tr = length tr + length (filter id [last bm])"
          using False by simp
      qed
    qed
  next
    case PyNone
    with Suc.prems(1) show ?thesis by simp
  next
    case (Const c)
    show ?thesis
      unfolding Const
      by (rule popsI [where used = "[]"]) (simp_all only: mutate_Const, simp_all)
  next
    case (Dict kvs)
    let ?f = "\<lambda>(k, v) st.
        (case dict_get best k of
           Inl e \<Rightarrow> Inl e
         | Inr b \<Rightarrow>
             (case mutate_from_best env s d t v b st of
                Inl e \<Rightarrow> Inl e
              | Inr (c, st') \<Rightarrow> Inr ((k, c), st')))"
    let ?cnt = "\<lambda>(k, v). count_free_parameters_rec v"
    have elem: "pops (?cnt x) (bm', r', tr') (?f x (bm', r', tr'))"
      if x: "x \<in> set kvs" and len: "?cnt x \<le> length bm'" for x bm' r' tr'
    proof -
      obtain k v where kv: "x = (k, v)" by (cases x)
      from x kv Suc.prems(1) Dict have nf: "none_free v"
        by (auto simp: list_all_iff)
      from x kv Suc.prems(2) Dict have dp: "tree_depth v \<le> d"
        using fold_max_ge [of "tree_depth v" "map (\<lambda>(k, v). tree_depth v) kvs" 0]
        by force
      from x kv Suc.prems(3) Dict obtain b where b: "dict_get best k = Inr b" and sh: "same_shape v b"
        using same_shape_DictD [of kvs best k v] by auto
      from len kv have len': "count_free_parameters_rec v \<le> length bm'" by simp
      have "pops (count_free_parameters_rec v) (bm', r', tr')
          (mutate_from_best env s d t v b (bm', r', tr'))"
        by (rule Suc.IH [OF nf dp sh len'])
      then show ?thesis
        unfolding kv using b by (simp add: pops_wrap)
    qed
    have total: "sum_list (map ?cnt kvs) \<le> length bm"
      using Suc.prems(4) Dict by simp
    have "pops (sum_list (map ?cnt kvs)) (bm, r, tr) (map_state ?f kvs (bm, r, tr))"
      by (rule map_state_pops) (use elem total in auto)
    then have "pops (sum_list (map ?cnt kvs)) (bm, r, tr)
        (case map_state ?f kvs (bm, r, tr) of Inl e \<Rightarrow> Inl e | Inr (cs, st') \<Rightarrow> Inr (Dict cs, st'))"
      by (rule pops_wrap)
    then show ?thesis
      by (simp only: Dict mutate_Dict count_free_parameters_rec.simps)
  next
    case (Lst xs)
    let ?f = "\<lambda>i st.
        (case list_get best i of
           Inl e \<Rightarrow> Inl e
         | Inr b \<Rightarrow> mutate_from_best env s d t (xs ! i) b st)"
    let ?cnt = "\<lambda>i. count_free_parameters_rec (xs ! i)"
    have elem: "pops (?cnt i) (bm', r', tr') (?f i (bm', r', tr'))"
      if i: "i \<in> set [0..<length xs]" and len: "?cnt i \<le> length bm'" for i bm' r' tr'
    proof -
      from i have il: "i < length xs" by simp
      then have mem: "xs ! i \<in> set xs" by simp
      from mem Suc.prems(1) Lst have nf: "none_free (xs ! i)"
        by (auto simp: list_all_iff)
      from mem Suc.prems(2) Lst have dp: "tree_depth (xs ! i) \<le> d"
        using fold_max_ge [of "tree_depth (xs ! i)" "map tree_depth xs" 0]
        by force
      from il Suc.prems(3) Lst obtain b where b: "list_get best i = Inr b"
        and sh: "same_shape (xs ! i) b"
        using same_shape_LstD [of xs best i] by auto
      have "pops (count_free_parameters_rec (xs ! i)) (bm', r', tr')
          (mutate_from_best env s d t (xs ! i) b (bm', r', tr'))"
        by (rule Suc.IH [OF nf dp sh len])
      then show ?thesis
        using b by simp
    qed
    have eq: "map ?cnt [0..<length xs] = map count_free_parameters_rec xs"
      by (rule nth_equalityI) simp_all
    have total: "sum_list (map ?cnt [0..<length xs]) \<le> length bm"
      using Suc.prems(4) Lst by (simp only: eq) simp
    have "pops (sum_list (map ?cnt [0..<length xs])) (bm, r, tr)
        (map_state ?f [0..<length xs] (bm, r, tr))"
      by (rule map_state_pops) (use elem total in auto)
    then have "pops (sum_list (map count_free_parameters_rec xs)) (bm, r, tr)
        (case map_state ?f [0..<length xs] (bm, r, tr) of
           Inl e \<Rightarrow> Inl e | Inr (cs, st') \<Rightarrow> Inr (Lst cs, st'))"
      unfolding eq by (rule pops_wrap)
    then show ?thesis
      by (simp only: Lst mutate_Lst count_free_parameters_rec.simps)
  qed
qed


lemma py_round_le:
  assumes "x \<le> real n"
  shows "py_round x \<le> int n"
proof -
  have fl: "\<lfloor>x\<rfloor> \<le> int n"
    using assms by (simp add: floor_le_iff)
  show ?thesis
  proof (cases "\<lfloor>x\<rfloor> = int n")
    case True
    then have "real n \<le> x"
      by (metis of_int_floor_le of_int_of_nat_eq)
    with assms have "x = real n" by simp
    then show ?thesis
      by (simp add: py_round_def)
  next
    case False
    with fl have "\<lfloor>x\<rfloor> + 1 \<le> int n" by simp
    then show ?thesis
      by (auto simp: py_round_def Let_def)
  qed
qed

lemma count_fresh_bitmask:
  "length (filter id (fresh_bitmask a n)) = min (nat a) n"
proof (induction n)
  case 0
  show ?case by (simp add: fresh_bitmask_def)
next
  case (Suc n)
  then show ?case
    by (auto simp: fresh_bitmask_def)
qed

lemma amount_to_mutate_bounds:
  assumes "0 < n"
  shows "1 \<le> amount_to_mutate (clip t 0 1) n \<and> amount_to_mutate (clip t 0 1) n \<le> int n"
proof -
  have "clip t 0 1 \<le> 1" by (simp add: clip_def)
  then have "clip t 0 1 * real n \<le> 1 * real n"
    by (rule mult_right_mono) simp
  then have "py_round (clip t 0 1 * real n) \<le> int n"
    using py_round_le [of "clip t 0 1 * real n" n] by simp
  with assms show ?thesis
    by (simp add: amount_to_mutate_def)
qed

text \<open>
  For a search space without \<open>None\<close> that fits on the stack, a best solution of its
  shape, a parameter count that is that of the search space and not 0, and a shuffle that
  permutes: the call at the root returns, and the number of parameters that it mutates is
  \<open>max(round(t * n), 1)\<close> for the clipped temperature \<open>t\<close>.
\<close>

theorem mutate_from_best_count:
  assumes nf: "none_free (params s)"
    and dp: "tree_depth (params s) \<le> recursion_limit env"
    and sh: "same_shape (params s) (best_solution s)"
    and cnt: "free_param_count s = count_free_parameters_rec (params s)"
    and pos: "0 < free_param_count s"
    and perm: "\<And>r xs. mset (shuffle env r xs) = mset xs"
  shows "\<exists>c bm r' tr.
           mutate_from_best env s (recursion_limit env) temperature PyNone PyNone ([], r0, [])
             = Inr (c, (bm, r', tr)) \<and>
           int (length tr)
             = max (py_round (clip temperature 0 1 * real (free_param_count s))) 1"
proof -
  let ?n = "free_param_count s"
  let ?a = "amount_to_mutate (clip temperature 0 1) ?n"
  let ?mask = "shuffle env r0 (fresh_bitmask ?a ?n)"
  from dp obtain d where d: "recursion_limit env = Suc d"
    by (cases "recursion_limit env"; cases "params s") auto
  have ne: "params s \<noteq> PyNone"
    using nf by auto
  have len: "length ?mask = ?n"
    using perm [of r0 "fresh_bitmask ?a ?n"]
    by (metis size_mset length_map fresh_bitmask_def length_upt diff_zero)
  have trues: "length (filter id ?mask) = min (nat ?a) ?n"
    using perm [of r0 "fresh_bitmask ?a ?n"] count_fresh_bitmask [of ?a ?n]
    by (metis mset_filter size_mset)
  have "pops (count_free_parameters_rec (params s)) (?mask, Suc r0, [])
      (mutate_from_best env s (Suc d) (clip temperature 0 1) (params s) (best_solution s)
         (?mask, Suc r0, []))"
    by (rule mutate_pops) (use nf dp sh cnt len d in simp_all)
  then obtain c bm' r' tr used where
    res: "mutate_from_best env s (Suc d) (clip temperature 0 1) (params s) (best_solution s)
        (?mask, Suc r0, []) = Inr (c, (bm', r', tr))"
    and split: "?mask = bm' @ used" and lu: "length used = count_free_parameters_rec (params s)"
    and lt: "length tr = length ([]::nat list) + length (filter id used)"
    by (rule popsE)
  from split lu len cnt have "bm' = []" by (metis append_eq_conv_conj length_0_conv
        add_diff_cancel_right' length_append add.commute add_cancel_right_left)
  with split have used: "used = ?mask" by simp
  have root: "mutate_from_best env s (recursion_limit env) temperature PyNone PyNone ([], r0, [])
      = Inr (c, ([], r', tr))"
    unfolding d by (simp only: mutate_root [OF ne] res) simp
  have "1 \<le> ?a \<and> ?a \<le> int ?n"
    using pos by (rule amount_to_mutate_bounds)
  then have "int (min (nat ?a) ?n) = ?a" by auto
  with lt used trues have "int (length tr) = ?a" by simp
  with root show ?thesis
    by (auto simp: amount_to_mutate_def)
qed

lemma py_round_of_nat: "py_round (real n) = int n"
  by (simp add: py_round_def)

lemma mutate_from_best_count_cold:
  assumes "0 < n" and "temperature \<le> 0"
  shows "max (py_round (clip temperature 0 1 * real n)) 1 = 1"
  using assms by (simp add: clip_def py_round_def)

lemma mutate_from_best_count_hot:
  assumes "0 < n" and "1 \<le> temperature"
  shows "max (py_round (clip temperature 0 1 * real n)) 1 = int n"
  using assms by (simp add: clip_def py_round_of_nat)

text \<open>The search space of two parameters at the temperature one half: one is mutated.\<close>

lemma mutate_from_best_count_example:
  "\<exists>c bm r' tr.
     mutate_from_best ex_env ex_search (recursion_limit ex_env) (1 / 2) PyNone PyNone ([], 0, [])
       = Inr (c, (bm, r', tr)) \<and> int (length tr) = 1"
proof -
  have h: "none_free (params ex_search)" "tree_depth (params ex_search) \<le> recursion_limit ex_env"
    "same_shape (params ex_search) (best_solution ex_search)"
    "free_param_count ex_search = count_free_parameters_rec (params ex_search)"
    "0 < free_param_count ex_search"
    by (simp_all add: ex_search_def init_search_def ex_params_def ex_env_def enumerate_eq_zip)
  have p: "\<And>r xs. mset (shuffle ex_env r xs) = mset xs"
    by (simp add: ex_env_def)
  have n: "max (py_round (clip (1 / 2) 0 1 * real (free_param_count ex_search))) 1 = 1"
    by (simp add: ex_search_def init_search_def ex_params_def clip_def py_round_def)
  show ?thesis
    using mutate_from_best_count [OF h p, of "1 / 2" 0] n by simp
qed

section \<open>Runs with a constant objective function\<close>

lemma evaluations_append [simp]: "evaluations (xs @ ys) = evaluations xs @ evaluations ys"
  by (simp add: evaluations_def)

lemma evaluations_notify [simp]: "evaluations (notify cbs h) = []"
  by (induction cbs) (simp_all add: evaluations_def notify_def)

lemma evaluations_Execute [simp]: "evaluations (Execute c # es) = c # evaluations es"
  by (simp add: evaluations_def)

lemma evaluations_Nil [simp]: "evaluations [] = []"
  by (simp add: evaluations_def)





lemma set_schedule_frame [simp]:
  "f_cache (set_schedule sch s) = f_cache s" "log (set_schedule sch s) = log s"
  by (simp_all add: set_schedule_def)








section \<open>Manually queued candidates\<close>


lemma find_None_subset:
  "find (\<lambda>k. k \<notin> set bs) cs = None \<longleftrightarrow> set cs \<subseteq> set bs"
  by (auto simp: find_None_iff)

















section \<open>Checkpoints\<close>

text \<open>
  Where \<open>load\<close> does restore what \<open>save\<close> stored: when the checkpoint holds no run
  context (it was saved outside a run, or after the run had terminated), or when the
  search that loads is itself in a run.
\<close>

lemma load_pruner_frame:
  assumes "\<not> other_pruner parg (context_pruner s)"
  shows "\<exists>s' p'. load_pruner s st parg = (None, s', p') \<and>
           best_f s' = best_f s \<and> best_solution s' = best_solution s \<and> history s' = history s \<and>
           f_cache s' = f_cache s"
  using assms
  by (cases "run_ctx s"; cases "context_pruner s")
     (auto simp: load_pruner_def context_pruner_def split: option.splits)

lemma other_pruner_load_state:
  "other_pruner parg (pruner (run_context_load_state_dict rc sd)) = other_pruner parg (pruner rc)"
  by (auto simp: other_pruner_def run_context_load_state_dict_def split: option.splits)

lemma save_load_round_trip:
  assumes "save conv s fs path parg = (Inr file, fs')"
    and "run_ctx t \<noteq> None \<or> run_ctx s = None \<or> (\<exists>rc. run_ctx s = Some rc \<and> terminate rc)"
    and "\<not> other_pruner parg' (context_pruner t)"
  shows "\<exists>t' p'. load t fs' file parg' = (None, t', p') \<and>
           best_f t' = best_f s \<and> best_solution t' = best_solution s \<and> history t' = history s \<and>
           committed (f_cache t') = committed (f_cache s) \<and>
           staged (f_cache t') = staged (f_cache s)"
proof -
  define saved where "saved = (case run_ctx s of
      None \<Rightarrow> None
    | Some rc \<Rightarrow> if terminate rc then None else Some (run_context_state_dict rc))"
  define pst where "pst = map_option appended (case context_pruner s of None \<Rightarrow> parg | Some q \<Rightarrow> Some q)"
  define sd where "sd = \<lparr>ck_run_context = Some saved,
        ck_cache = Some (cache_state_dict (f_cache s)),
        ck_best_f = Some (best_f s),
        ck_history = Some (history s),
        ck_pruner = pst,
        ck_best_solution = Some (best_solution s)\<rparr>"
  from assms(1) have look: "fs' file = Some sd"
    by (auto simp: save_def Let_def sd_def saved_def pst_def split: if_splits)
  obtain t1 where t1: "(case saved of
        None \<Rightarrow> Inr t
      | Some d \<Rightarrow>
          (case run_ctx t of
             None \<Rightarrow> Inl AttributeError
           | Some rc \<Rightarrow> Inr (t\<lparr>run_ctx := Some (run_context_load_state_dict rc d)\<rparr>))) = Inr t1"
    and fr1: "best_f t1 = best_f t" "f_cache t1 = f_cache t"
    and np1: "\<not> other_pruner parg' (context_pruner t1)"
    using assms(2,3)
    by (cases saved; cases "run_ctx t")
       (auto simp: saved_def context_pruner_def other_pruner_load_state split: option.splits if_splits)
  define t5 where "t5 = t1\<lparr>f_cache := cache_load_state_dict (f_cache t1) (cache_state_dict (f_cache s)),
      history := history s, best_f := best_f s, best_solution := best_solution s\<rparr>"
  have np5: "\<not> other_pruner parg' (context_pruner t5)"
    using np1 by (simp add: t5_def context_pruner_def)
  have ld: "load t fs' file parg' =
      (case pst of None \<Rightarrow> (None, t5, parg') | Some st \<Rightarrow> load_pruner t5 st parg')"
    using t1 unfolding t5_def by (simp add: load_def look sd_def Let_def)
  have t5: "best_f t5 = best_f s" "best_solution t5 = best_solution s" "history t5 = history s"
    "committed (f_cache t5) = committed (f_cache s)" "staged (f_cache t5) = staged (f_cache s)"
    by (simp_all add: t5_def cache_load_state_dict_def cache_state_dict_def)
  show ?thesis
  proof (cases pst)
    case None
    with ld t5 show ?thesis by simp
  next
    case (Some st)
    from load_pruner_frame [OF np5, of st] obtain t' p' where
      "load_pruner t5 st parg' = (None, t', p')" "best_f t' = best_f t5"
      "best_solution t' = best_solution t5" "history t' = history t5" "f_cache t' = f_cache t5"
      by blast
    with ld Some t5 show ?thesis by simp
  qed
qed

lemma load_missing_key:
  assumes "fs path = Some sd"
    and "ck_run_context sd = None \<or> ck_cache sd = None \<or> ck_history sd = None \<or>
         ck_best_f sd = None \<or> ck_best_solution sd = None"
    and "run_ctx s \<noteq> None \<or> ck_run_context sd = None \<or> ck_run_context sd = Some None"
  shows "\<exists>key s'. load s fs path parg = (Some (could_not_parse path key), s', parg)"
  using assms
  by (auto simp: load_def Let_def split: option.splits)

text \<open>
  C8.  The claim: \<open>save\<close> of a non-terminated search followed by \<open>load\<close> on a fresh
  \<open>Search\<close> object reproduces the best value, the best solution, the history and the
  cache.  A search saved during a run stores the state of its run context; a fresh
  \<open>Search\<close> object has no run context (\<open>_run_context\<close> is \<open>None\<close>), and line 780
  calls \<open>load_state_dict\<close> on it: \<open>load\<close> raises \<open>AttributeError\<close> and restores
  nothing.
\<close>

theorem load_midrun_checkpoint_on_fresh_search:
  "fst (save (\<lambda>p. p) ex_midrun no_files ''run.ckpt'' None) = Inr ''run.ckpt''
   \<and> load ex_search (snd (save (\<lambda>p. p) ex_midrun no_files ''run.ckpt'' None)) ''run.ckpt'' None
       = (Some AttributeError, ex_search, None)
   \<and> best_f ex_midrun = Some 1 \<and> best_f ex_search = None
   \<and> committed (f_cache ex_midrun) = [(best_solution ex_search, 1)]
   \<and> committed (f_cache ex_search) = []"
  by (simp add: save_def load_def Let_def ex_midrun_def submit_candidate_def async_result_ready_def
      ex_context_def ex_search_def init_search_def constant_objective_def no_files_def
      context_pruner_def other_pruner_def cache_commit_def cache_stage_def cache_empty_def
      improves_def)

text \<open>
  C9.  The claim: a checkpoint that lacks a required key makes \<open>load\<close> raise one error
  that names the file.  For a checkpoint of a run in progress that lacks the key
  \<open>cache\<close>, loaded by a search that is not in a run, \<open>load\<close> raises
  \<open>AttributeError\<close> at line 780, before it looks for the key; the error does not name
  the file.
\<close>

theorem load_broken_checkpoint_on_fresh_search:
  "ck_cache ex_broken_checkpoint = None
   \<and> load ex_search (no_files(''run.ckpt'' := Some ex_broken_checkpoint)) ''run.ckpt'' None
       = (Some AttributeError, ex_search, None)
   \<and> could_not_parse ''run.ckpt'' ''cache'' \<noteq> AttributeError"
  by (simp add: load_def ex_broken_checkpoint_def ex_search_def init_search_def could_not_parse_def)

section \<open>\<open>register_int\<close> without bounds\<close>



end
